theory Spec2Isabelle
  imports Main "HOL-Library.Word"
begin

section \<open>The tab registry of \<^verbatim>\<open>src/src/App.tsx\<close>\<close>

text \<open>
  The \<^verbatim>\<open>Tab\<close> interface (App.tsx, lines 22-28). The field \<^verbatim>\<open>id\<close> is called
  \<open>tab_id\<close> here, since \<open>id\<close> is the identity function of HOL; \<^verbatim>\<open>string | null\<close>
  is \<open>string option\<close>.
\<close>

record tab =
  tab_id :: string
  title :: string
  filePath :: "string option"
  content :: string
  isModified :: bool

text \<open>
  The two pieces of React state the registry consists of: \<^verbatim>\<open>tabs\<close> (line 32) and
  \<^verbatim>\<open>activeTabId\<close> (line 43). Every handler is modelled as a function from the state
  it reads to the state its \<^verbatim>\<open>setTabs\<close>/\<^verbatim>\<open>setActiveTabId\<close> calls produce.
\<close>

record app =
  tabs :: "tab list"
  activeTabId :: string

text \<open>
  \<^verbatim>\<open>`tab-${Date.now()}`\<close>: the clock reading is an input of the model (milliseconds, a
  natural number), rendered in decimal as the template literal does.
\<close>

definition digit_char :: "nat \<Rightarrow> char" where
  "digit_char d = ''0123456789'' ! d"

fun decimal :: "nat \<Rightarrow> string" where
  "decimal n = (if n < 10 then [digit_char n] else decimal (n div 10) @ [digit_char (n mod 10)])"

declare decimal.simps [simp del]

definition newTabId :: "nat \<Rightarrow> string" where
  "newTabId now = ''tab-'' @ decimal now"

text \<open>The object literal of lines 112-118 and 133-139: a fresh default tab.\<close>

definition defaultTab :: "string \<Rightarrow> tab" where
  "defaultTab i = \<lparr>tab_id = i, title = ''Untitled'', filePath = None, content = [], isModified = False\<rparr>"

text \<open>The initial values of the two \<^verbatim>\<open>useState\<close> calls (lines 32-43).\<close>

definition initialApp :: app where
  "initialApp = \<lparr>tabs = [defaultTab ''tab-1''], activeTabId = ''tab-1''\<rparr>"

text \<open>\<^verbatim>\<open>tabs.find(t => t.id === tabId)\<close>; \<open>None\<close> is \<^verbatim>\<open>undefined\<close>.\<close>

definition find_tab :: "tab list \<Rightarrow> string \<Rightarrow> tab option" where
  "find_tab ts i = List.find (\<lambda>t. tab_id t = i) ts"

text \<open>
  Line 52: \<^verbatim>\<open>tabs.find(tab => tab.id === activeTabId) || tabs[0]\<close>. On an empty array
  \<^verbatim>\<open>tabs[0]\<close> is \<^verbatim>\<open>undefined\<close>, which is \<open>None\<close>.
\<close>

definition activeTab :: "app \<Rightarrow> tab option" where
  "activeTab a =
     (case find_tab (tabs a) (activeTabId a) of
        Some t \<Rightarrow> Some t
      | None \<Rightarrow> (case tabs a of [] \<Rightarrow> None | t # _ \<Rightarrow> Some t))"

text \<open>\<^verbatim>\<open>updateTabContent\<close> (lines 94-100) and \<^verbatim>\<open>updateTabFile\<close> (lines 102-108).\<close>

definition updateTabContent :: "string \<Rightarrow> string \<Rightarrow> bool \<Rightarrow> app \<Rightarrow> app" where
  "updateTabContent tabId c m a =
     a\<lparr>tabs := map (\<lambda>t. if tab_id t = tabId then t\<lparr>content := c, isModified := m\<rparr> else t) (tabs a)\<rparr>"

definition updateTabFile :: "string \<Rightarrow> string option \<Rightarrow> string \<Rightarrow> bool \<Rightarrow> app \<Rightarrow> app" where
  "updateTabFile tabId p ti m a =
     a\<lparr>tabs := map (\<lambda>t. if tab_id t = tabId then t\<lparr>filePath := p, title := ti, isModified := m\<rparr> else t) (tabs a)\<rparr>"

text \<open>
  \<^verbatim>\<open>createNewTab\<close> (lines 110-122): appends the tab, makes it active and returns its
  id. \<open>now\<close> is what \<^verbatim>\<open>Date.now()\<close> returns.
\<close>

definition createNewTab :: "nat \<Rightarrow> app \<Rightarrow> string \<times> app" where
  "createNewTab now a =
     (let newId = newTabId now
      in (newId, \<lparr>tabs = tabs a @ [defaultTab newId], activeTabId = newId\<rparr>))"

text \<open>
  \<^verbatim>\<open>closeTab\<close> (lines 125-141). \<^verbatim>\<open>setActiveTabId\<close> is called only when the closed tab
  was active and \<^verbatim>\<open>filtered.length > 0\<close>; the branch that builds the replacement tab
  (\<^verbatim>\<open>filtered.length === 0\<close>) makes no call of \<^verbatim>\<open>setActiveTabId\<close>.
\<close>

definition closeTab :: "nat \<Rightarrow> string \<Rightarrow> app \<Rightarrow> app" where
  "closeTab now tabId a =
     (let filtered = filter (\<lambda>t. tab_id t \<noteq> tabId) (tabs a)
      in \<lparr>tabs = (if filtered = [] then [defaultTab (newTabId now)] else filtered),
          activeTabId = (if tabId = activeTabId a \<and> filtered \<noteq> []
                         then tab_id (last filtered) else activeTabId a)\<rparr>)"

text \<open>
  Selecting a tab in the tab bar: \<^verbatim>\<open>onTabSelect={setActiveTabId}\<close> (line 550), which
  \<^verbatim>\<open>TabBar\<close> calls with the id of a tab it displays.
\<close>

definition onTabSelect :: "string \<Rightarrow> app \<Rightarrow> app" where
  "onTabSelect tabId a = a\<lparr>activeTabId := tabId\<rparr>"

text \<open>
  The tab cycling of the keyboard handler (lines 452-458 and 478-484).
  \<^verbatim>\<open>findIndex\<close> returns -1 when no tab has the active id, so the index is an \<open>int\<close>;
  \<^verbatim>\<open>tabs[i].id\<close> throws a TypeError when \<open>i\<close> is out of range, which is \<open>None\<close>.
\<close>

definition findIndex :: "tab list \<Rightarrow> string \<Rightarrow> int" where
  "findIndex ts i =
     (case List.find (\<lambda>n. tab_id (ts ! n) = i) [0 ..< length ts] of
        Some n \<Rightarrow> int n
      | None \<Rightarrow> - 1)"

definition tab_at :: "tab list \<Rightarrow> int \<Rightarrow> tab option" where
  "tab_at ts i = (if 0 \<le> i \<and> i < int (length ts) then Some (ts ! nat i) else None)"

text \<open>
  JavaScript's \<^verbatim>\<open>%\<close> truncates towards zero and yields NaN for a zero divisor (an
  index that no array has), which is \<open>None\<close>; the dividend here is never below 0.
\<close>

definition cycleNext :: "app \<Rightarrow> app option" where
  "cycleNext a =
     (let currentIndex = findIndex (tabs a) (activeTabId a)
      in if tabs a = [] then None
         else (case tab_at (tabs a) ((currentIndex + 1) mod int (length (tabs a))) of
                 None \<Rightarrow> None
               | Some t \<Rightarrow> Some (a\<lparr>activeTabId := tab_id t\<rparr>)))"

definition cyclePrevious :: "app \<Rightarrow> app option" where
  "cyclePrevious a =
     (let currentIndex = findIndex (tabs a) (activeTabId a);
          prevIndex = (if currentIndex = 0 then int (length (tabs a)) - 1 else currentIndex - 1)
      in (case tab_at (tabs a) prevIndex of
            None \<Rightarrow> None
          | Some t \<Rightarrow> Some (a\<lparr>activeTabId := tab_id t\<rparr>)))"

text \<open>
  The \<^verbatim>\<open>onUpdate\<close> callback of the editor (lines 179-183): \<open>newContent\<close> is what
  \<^verbatim>\<open>editor.getHTML()\<close> returns. \<^verbatim>\<open>activeTab.content\<close> throws when there is no tab at
  all, which is \<open>None\<close>.
\<close>

definition EMPTY_DOC :: string where
  "EMPTY_DOC = ''<p></p>''"

definition onUpdate :: "string \<Rightarrow> app \<Rightarrow> app option" where
  "onUpdate newContent a =
     (case activeTab a of
        None \<Rightarrow> None
      | Some t \<Rightarrow>
          Some (updateTabContent (activeTabId a) newContent
                  (newContent \<noteq> EMPTY_DOC \<and> newContent \<noteq> content t) a))"

text \<open>
  The invariant the comments of lines 31 and 51-52 aim at: there is a tab, and
  \<^verbatim>\<open>activeTabId\<close> is the id of one of the tabs.
\<close>

definition registry_inv :: "app \<Rightarrow> bool" where
  "registry_inv a = (tabs a \<noteq> [] \<and> find_tab (tabs a) (activeTabId a) \<noteq> None)"

section \<open>The unsaved-change guard\<close>

text \<open>
  \<^verbatim>\<open>checkUnsavedChanges\<close> (lines 192-211). The dialog of the host is an input of the
  model: \<open>confirm msg\<close> is \<open>Some answer\<close> when the user answers, and \<open>None\<close> when the
  awaited promise is rejected (the \<^verbatim>\<open>catch\<close> branch). The result is paired with the
  list of the messages that were shown, so that "without prompting" can be stated.

  \<^verbatim>\<open>tabId ? ... : activeTab\<close> tests the truthiness of an optional string: both
  \<^verbatim>\<open>undefined\<close> and the empty string select \<^verbatim>\<open>activeTab\<close>. The same holds for
  \<^verbatim>\<open>tab.filePath ? ... : tab.title\<close>.
\<close>

definition guarded_tab :: "string option \<Rightarrow> app \<Rightarrow> tab option" where
  "guarded_tab tabId a =
     (case tabId of
        None \<Rightarrow> activeTab a
      | Some i \<Rightarrow> if i \<noteq> [] then find_tab (tabs a) i else activeTab a)"

text \<open>\<^verbatim>\<open>s.split('\\').pop()\<close>: what follows the last backslash of \<open>s\<close>.\<close>

definition split_pop :: "char \<Rightarrow> string \<Rightarrow> string" where
  "split_pop sep s = rev (takeWhile (\<lambda>c. c \<noteq> sep) (rev s))"

definition fileName_of :: "tab \<Rightarrow> string" where
  "fileName_of t =
     (case filePath t of
        None \<Rightarrow> title t
      | Some p \<Rightarrow> if p \<noteq> [] then split_pop (CHR 0x5C) p else title t)"

definition discardMessage :: "tab \<Rightarrow> string" where
  "discardMessage t = ''Discard unsaved changes to '' @ fileName_of t @ ''?''"

definition checkUnsavedChanges ::
    "(string \<Rightarrow> bool option) \<Rightarrow> string option \<Rightarrow> app \<Rightarrow> bool \<times> string list" where
  "checkUnsavedChanges confirm tabId a =
     (case guarded_tab tabId a of
        None \<Rightarrow> (True, [])
      | Some t \<Rightarrow>
          if \<not> isModified t then (True, [])
          else (case confirm (discardMessage t) of
                  Some shouldDiscard \<Rightarrow> (shouldDiscard, [discardMessage t])
                | None \<Rightarrow> (False, [discardMessage t])))"

text \<open>
  \<^verbatim>\<open>handleCloseTab\<close> (lines 213-223); the second component is again the list of the
  prompts shown.
\<close>

definition handleCloseTab ::
    "(string \<Rightarrow> bool option) \<Rightarrow> nat \<Rightarrow> string \<Rightarrow> app \<Rightarrow> app \<times> string list" where
  "handleCloseTab confirm now tabId a =
     (case find_tab (tabs a) tabId of
        None \<Rightarrow> (a, [])
      | Some t \<Rightarrow>
          if isModified t
          then (case checkUnsavedChanges confirm (Some tabId) a of
                  (proceed, prompts) \<Rightarrow>
                    if \<not> proceed then (a, prompts) else (closeTab now tabId a, prompts))
          else (closeTab now tabId a, []))"

text \<open>
  \<^verbatim>\<open>handleWindowClose\<close> (lines 496-506). When no tab is modified the handler returns
  without \<^verbatim>\<open>event.preventDefault()\<close> and the host closes the window; otherwise the
  close is prevented and happens only through \<^verbatim>\<open>appWindow.close()\<close>.
\<close>

datatype window = WindowOpen | WindowClosed

definition handleWindowClose ::
    "(string \<Rightarrow> bool option) \<Rightarrow> app \<Rightarrow> window \<times> string list" where
  "handleWindowClose confirm a =
     (if list_ex isModified (tabs a)
      then (case checkUnsavedChanges confirm None a of
              (proceed, prompts) \<Rightarrow> (if proceed then WindowClosed else WindowOpen, prompts))
      else (WindowClosed, []))"

section \<open>Opening and saving\<close>





section \<open>Find and replace (\<^verbatim>\<open>src/src/components/FindReplaceDialog.tsx\<close>)\<close>

subsection \<open>The strings of the host\<close>

text \<open>
  A JavaScript string is a sequence of UTF-16 code units, and the regular expressions of
  the dialog (built without the flag \<^verbatim>\<open>u\<close>) work on code units. \<open>js\<close> gives the code
  units of a literal made of ASCII characters.
\<close>

type_synonym code_unit = "16 word"

type_synonym jsstring = "code_unit list"

text \<open>
  The registry above only compares its strings, joins them and looks for ASCII
  characters in them, which any faithful encoding allows; it keeps them as \<open>string\<close>.
\<close>

definition js :: "string \<Rightarrow> jsstring" where
  "js s = map of_char s"

subsection \<open>The regular expressions the dialog builds\<close>

text \<open>
  \<^verbatim>\<open>escapeRegex\<close> (lines 28-30) replaces every character of the class
  \<^verbatim>\<open>[.*+?^${}()|[\]\\]\<close> by a backslash followed by that character (the template
  \<^verbatim>\<open>'\\$&'\<close>). \<open>0x5C\<close> is the backslash.
\<close>

definition regex_specials :: "code_unit list" where
  "regex_specials = js ''.*+?^${}()|[]'' @ [0x5C]"

definition escapeRegex :: "jsstring \<Rightarrow> jsstring" where
  "escapeRegex s = concat (map (\<lambda>c. if c \<in> set regex_specials then [0x5C, c] else [c]) s)"

text \<open>
  \<^verbatim>\<open>new RegExp(pattern, flags)\<close> is the host's, not the repository's. The model reads
  the fragment of the pattern language the dialog can produce, and one metacharacter
  more so that escaping is seen to matter: an ordinary character, a backslash followed by
  a syntax character (an identity escape: that character, literally) and the dot
  (\<open>0x2E\<close>: any character but a line terminator). Every other pattern (a quantifier, a
  group, a class, an assertion, an alternative, another escape, a trailing backslash) is
  \<open>None\<close>: the constructor throws, or the pattern is outside the fragment.
\<close>

datatype atom = Lit code_unit | AnyChar

fun RegExp_parse :: "jsstring \<Rightarrow> atom list option" where
  "RegExp_parse [] = Some []"
| "RegExp_parse (c # cs) =
     (if c = 0x5C
      then (case cs of
              [] \<Rightarrow> None
            | d # ds \<Rightarrow>
                if d \<in> set regex_specials then map_option (Cons (Lit d)) (RegExp_parse ds)
                else None)
      else if c = 0x2E then map_option (Cons AnyChar) (RegExp_parse cs)
      else if c \<in> set regex_specials then None
      else map_option (Cons (Lit c)) (RegExp_parse cs))"

text \<open>
  With the flag \<^verbatim>\<open>i\<close> two code units are compared after \<^verbatim>\<open>Canonicalize\<close> of the
  language standard: a code unit is mapped to the upper case that Unicode gives it,
  unless that upper case is more than one code unit long, or is an ASCII character while
  the code unit is not; then it stays as it is. Unicode's table of upper cases is the
  host's and is in no source file: it is the parameter \<open>toUppercase\<close> of everything
  below, which gives the code units of the upper case of a code unit, and every property
  proved below holds for every such table.
\<close>

definition canonicalize :: "(code_unit \<Rightarrow> jsstring) \<Rightarrow> bool \<Rightarrow> code_unit \<Rightarrow> code_unit" where
  "canonicalize toUppercase ignoreCase ch =
     (if \<not> ignoreCase then ch
      else (case toUppercase ch of
              [cu] \<Rightarrow> if 128 \<le> ch \<and> cu < 128 then ch else cu
            | _ \<Rightarrow> ch))"

text \<open>
  To run examples a table is needed. \<open>latin1_toUppercase\<close> is Unicode's table on the
  code units below \<open>0x100\<close> (Basic Latin and Latin-1 Supplement): the letters
  \<^verbatim>\<open>a\<close>-\<^verbatim>\<open>z\<close> and \<open>0xE0\<close>-\<open>0xFE\<close> without the division sign \<open>0xF7\<close> go 32 down, the
  sharp s \<open>0xDF\<close> goes to \<^verbatim>\<open>SS\<close>, the micro sign \<open>0xB5\<close> to the Greek capital mu
  \<open>0x39C\<close>, the y with diaeresis \<open>0xFF\<close> to \<open>0x178\<close>, and the others stay. Above \<open>0xFF\<close>
  it leaves every code unit as it is, so it is to be used on texts below \<open>0x100\<close> only;
  no general property refers to it.
\<close>

definition latin1_toUppercase :: "code_unit \<Rightarrow> jsstring" where
  "latin1_toUppercase u =
     (if (0x61 \<le> u \<and> u \<le> 0x7A) \<or> (0xE0 \<le> u \<and> u \<le> 0xFE \<and> u \<noteq> 0xF7) then [u - 0x20]
      else if u = 0xDF then [0x53, 0x53]
      else if u = 0xB5 then [0x39C]
      else if u = 0xFF then [0x178]
      else [u])"

text \<open>
  The dot matches every code unit but the line terminators: line feed, carriage return,
  and the line and paragraph separators \<open>0x2028\<close> and \<open>0x2029\<close>.
\<close>

fun atom_matches :: "(code_unit \<Rightarrow> jsstring) \<Rightarrow> bool \<Rightarrow> atom \<Rightarrow> code_unit \<Rightarrow> bool" where
  "atom_matches up ignoreCase (Lit a) c = (canonicalize up ignoreCase a = canonicalize up ignoreCase c)"
| "atom_matches up ignoreCase AnyChar c =
     (c \<noteq> 0x0A \<and> c \<noteq> 0x0D \<and> c \<noteq> 0x2028 \<and> c \<noteq> 0x2029)"

text \<open>
  Whether the pattern matches at the start of \<open>s\<close>. Every atom consumes one code unit,
  so the match, when there is one, is \<open>take (length p) s\<close>.
\<close>

fun matchesAt :: "(code_unit \<Rightarrow> jsstring) \<Rightarrow> bool \<Rightarrow> atom list \<Rightarrow> jsstring \<Rightarrow> bool" where
  "matchesAt up ignoreCase [] s = True"
| "matchesAt up ignoreCase (a # p) [] = False"
| "matchesAt up ignoreCase (a # p) (c # cs) =
     (atom_matches up ignoreCase a c \<and> matchesAt up ignoreCase p cs)"

text \<open>
  \<^verbatim>\<open>content.match(regex)\<close> with the flag \<^verbatim>\<open>g\<close>: all matches from left to right, the
  search resuming behind each match (one code unit further behind an empty match);
  \<^verbatim>\<open>null\<close>, here \<open>None\<close>, when there is none.
\<close>

function matchAll :: "(code_unit \<Rightarrow> jsstring) \<Rightarrow> bool \<Rightarrow> atom list \<Rightarrow> jsstring \<Rightarrow> jsstring list" where
  "matchAll up ignoreCase p s =
     (if matchesAt up ignoreCase p s
      then take (length p) s #
             (if s = [] then []
              else if p = [] then matchAll up ignoreCase p (tl s)
              else matchAll up ignoreCase p (drop (length p) s))
      else if s = [] then []
      else matchAll up ignoreCase p (tl s))"
  by pat_completeness auto
termination
  by (relation "measure (\<lambda>(up, ignoreCase, p, s). length s)") auto

declare matchAll.simps [simp del]

definition String_match ::
    "(code_unit \<Rightarrow> jsstring) \<Rightarrow> bool \<Rightarrow> atom list \<Rightarrow> jsstring \<Rightarrow> jsstring list option" where
  "String_match up ignoreCase p s =
     (case matchAll up ignoreCase p s of [] \<Rightarrow> None | m # ms \<Rightarrow> Some (m # ms))"

text \<open>
  \<^verbatim>\<open>GetSubstitution\<close>, which \<^verbatim>\<open>String.prototype.replace\<close> applies to a replacement
  string: \<^verbatim>\<open>$$\<close> is a dollar sign (\<open>0x24\<close>), \<^verbatim>\<open>$&\<close> (\<open>0x26\<close>) the matched text, \<^verbatim>\<open>$`\<close>
  (\<open>0x60\<close>) the text preceding the match and \<^verbatim>\<open>$'\<close> (\<open>0x27\<close>) the text following it.
  The patterns above have no capture group, so a dollar sign in front of a digit or
  \<^verbatim>\<open><\<close>, in front of any other character or at the end stands for itself.
\<close>

fun getSubstitution :: "jsstring \<Rightarrow> jsstring \<Rightarrow> jsstring \<Rightarrow> jsstring \<Rightarrow> jsstring" where
  "getSubstitution matched preceding following [] = []"
| "getSubstitution matched preceding following [c] = [c]"
| "getSubstitution matched preceding following (c # d # t) =
     (if c = 0x24 then
        (if d = 0x24 then 0x24 # getSubstitution matched preceding following t
         else if d = 0x26 then matched @ getSubstitution matched preceding following t
         else if d = 0x60 then preceding @ getSubstitution matched preceding following t
         else if d = 0x27 then following @ getSubstitution matched preceding following t
         else c # getSubstitution matched preceding following (d # t))
      else c # getSubstitution matched preceding following (d # t))"

text \<open>
  \<^verbatim>\<open>content.replace(regex, replaceText)\<close>: with the flag \<^verbatim>\<open>g\<close> every match is
  replaced, without it the first one only. \<open>preceding\<close> is the part of the subject already
  passed, which \<^verbatim>\<open>$`\<close> needs.
\<close>

function replaceFrom ::
    "(code_unit \<Rightarrow> jsstring) \<Rightarrow> bool \<Rightarrow> bool \<Rightarrow> atom list \<Rightarrow> jsstring \<Rightarrow> jsstring \<Rightarrow> jsstring \<Rightarrow> jsstring" where
  "replaceFrom up global ignoreCase p tmpl preceding s =
     (if matchesAt up ignoreCase p s
      then getSubstitution (take (length p) s) preceding (drop (length p) s) tmpl @
             (if \<not> global then drop (length p) s
              else if s = [] then []
              else if p = [] then
                hd s # replaceFrom up global ignoreCase p tmpl (preceding @ [hd s]) (tl s)
              else replaceFrom up global ignoreCase p tmpl (preceding @ take (length p) s)
                     (drop (length p) s))
      else if s = [] then []
      else hd s # replaceFrom up global ignoreCase p tmpl (preceding @ [hd s]) (tl s))"
  by pat_completeness auto
termination
  by (relation "measure (\<lambda>(up, global, ignoreCase, p, tmpl, preceding, s). length s)") auto

declare replaceFrom.simps [simp del]

definition String_replace ::
    "(code_unit \<Rightarrow> jsstring) \<Rightarrow> bool \<Rightarrow> bool \<Rightarrow> atom list \<Rightarrow> jsstring \<Rightarrow> jsstring \<Rightarrow> jsstring" where
  "String_replace up global ignoreCase p tmpl s = replaceFrom up global ignoreCase p tmpl [] s"

subsection \<open>The dialog\<close>

text \<open>
  The state of the dialog (lines 21-25) together with the serialized content of the
  editing surface, \<^verbatim>\<open>editor.getHTML()\<close>.
\<close>

record dialog =
  html :: jsstring
  findText :: jsstring
  replaceText :: jsstring
  caseSensitive :: bool
  currentMatch :: nat
  totalMatches :: nat

definition initialDialog :: "jsstring \<Rightarrow> dialog" where
  "initialDialog doc =
     \<lparr>html = doc, findText = [], replaceText = [], caseSensitive = False,
      currentMatch = 0, totalMatches = 0\<rparr>"

text \<open>
  \<^verbatim>\<open>editor.commands.setContent(newContent)\<close>: the editing surface parses the text and
  serializes it again on the next \<^verbatim>\<open>getHTML()\<close>. That round trip is the surface's, so
  it is the parameter \<open>reimport\<close>.
\<close>

definition setContent :: "(jsstring \<Rightarrow> jsstring) \<Rightarrow> jsstring \<Rightarrow> dialog \<Rightarrow> dialog" where
  "setContent reimport c d = d\<lparr>html := reimport c\<rparr>"

text \<open>
  \<^verbatim>\<open>findNext\<close> (lines 33-49), \<^verbatim>\<open>replaceNext\<close> (lines 52-64) and \<^verbatim>\<open>replaceAll\<close>
  (lines 67-80). All three return nothing; their effect is the new state. \<open>None\<close> is a
  pattern that \<open>RegExp_parse\<close> does not read.
\<close>

definition findNext :: "(code_unit \<Rightarrow> jsstring) \<Rightarrow> dialog \<Rightarrow> dialog option" where
  "findNext up d =
     (if findText d = [] then Some d
      else (case RegExp_parse (escapeRegex (findText d)) of
              None \<Rightarrow> None
            | Some regex \<Rightarrow>
                (case String_match up (\<not> caseSensitive d) regex (html d) of
                   Some matches \<Rightarrow> Some (d\<lparr>totalMatches := length matches\<rparr>)
                 | None \<Rightarrow> Some (d\<lparr>totalMatches := 0, currentMatch := 0\<rparr>))))"

definition replaceNext ::
    "(code_unit \<Rightarrow> jsstring) \<Rightarrow> (jsstring \<Rightarrow> jsstring) \<Rightarrow> dialog \<Rightarrow> dialog option" where
  "replaceNext up reimport d =
     (if findText d = [] then Some d
      else (case RegExp_parse (escapeRegex (findText d)) of
              None \<Rightarrow> None
            | Some regex \<Rightarrow>
                (let newContent =
                       String_replace up False (\<not> caseSensitive d) regex (replaceText d) (html d)
                 in if newContent \<noteq> html d then findNext up (setContent reimport newContent d)
                    else Some d)))"

definition replaceAll ::
    "(code_unit \<Rightarrow> jsstring) \<Rightarrow> (jsstring \<Rightarrow> jsstring) \<Rightarrow> dialog \<Rightarrow> dialog option" where
  "replaceAll up reimport d =
     (if findText d = [] then Some d
      else (case RegExp_parse (escapeRegex (findText d)) of
              None \<Rightarrow> None
            | Some regex \<Rightarrow>
                (let newContent =
                       String_replace up True (\<not> caseSensitive d) regex (replaceText d) (html d)
                 in if newContent \<noteq> html d
                    then Some ((setContent reimport newContent d)\<lparr>totalMatches := 0, currentMatch := 0\<rparr>)
                    else Some d)))"

text \<open>
  Typing into the find field (line 118) sets \<^verbatim>\<open>findText\<close>, and the effect of lines
  101-104 ("Auto-search when find text or case sensitivity changes") then runs
  \<^verbatim>\<open>findNext\<close>.
\<close>

definition changeFindText :: "(code_unit \<Rightarrow> jsstring) \<Rightarrow> jsstring \<Rightarrow> dialog \<Rightarrow> dialog option" where
  "changeFindText up t d = findNext up (d\<lparr>findText := t\<rparr>)"

subsection \<open>What the specification calls an occurrence\<close>

text \<open>
  The words of the specification, for comparison with the code above: the occurrences of
  a literal query in a text are found from left to right and do not overlap. When case
  is ignored, two code units are the same if the flag \<^verbatim>\<open>i\<close> of the host takes them for
  the same, that is, if they have the same canonical form.
\<close>

definition spec_occurs_at :: "(code_unit \<Rightarrow> jsstring) \<Rightarrow> bool \<Rightarrow> jsstring \<Rightarrow> jsstring \<Rightarrow> bool" where
  "spec_occurs_at up ignoreCase q s =
     (length q \<le> length s \<and>
      map (canonicalize up ignoreCase) (take (length q) s) = map (canonicalize up ignoreCase) q)"

function spec_count_occurrences ::
    "(code_unit \<Rightarrow> jsstring) \<Rightarrow> bool \<Rightarrow> jsstring \<Rightarrow> jsstring \<Rightarrow> nat" where
  "spec_count_occurrences up ignoreCase q s =
     (if q = [] \<or> s = [] then 0
      else if spec_occurs_at up ignoreCase q s
        then Suc (spec_count_occurrences up ignoreCase q (drop (length q) s))
        else spec_count_occurrences up ignoreCase q (tl s))"
  by pat_completeness auto
termination
  by (relation "measure (\<lambda>(up, ignoreCase, q, s). length s)") auto

declare spec_count_occurrences.simps [simp del]

function spec_replace_occurrences ::
    "(code_unit \<Rightarrow> jsstring) \<Rightarrow> bool \<Rightarrow> bool \<Rightarrow> jsstring \<Rightarrow> jsstring \<Rightarrow> jsstring \<Rightarrow> jsstring" where
  "spec_replace_occurrences up every ignoreCase q r s =
     (if q = [] \<or> s = [] then s
      else if spec_occurs_at up ignoreCase q s
        then r @ (if every then spec_replace_occurrences up every ignoreCase q r (drop (length q) s)
                  else drop (length q) s)
        else hd s # spec_replace_occurrences up every ignoreCase q r (tl s))"
  by pat_completeness auto
termination
  by (relation "measure (\<lambda>(up, every, ignoreCase, q, r, s). length s)") auto

declare spec_replace_occurrences.simps [simp del]

text \<open>
  Whether a replacement holds one of the four sequences that \<^verbatim>\<open>GetSubstitution\<close>
  expands in the absence of capture groups: \<^verbatim>\<open>$$\<close>, \<^verbatim>\<open>$&\<close>, \<^verbatim>\<open>$`\<close> or \<^verbatim>\<open>$'\<close>.
\<close>

fun has_template :: "jsstring \<Rightarrow> bool" where
  "has_template [] = False"
| "has_template [c] = False"
| "has_template (c # d # t) =
     (if c = 0x24 \<and> (d = 0x24 \<or> d = 0x26 \<or> d = 0x60 \<or> d = 0x27) then True
      else has_template (d # t))"

section \<open>Properties of the tab registry\<close>

subsection \<open>Auxiliary facts\<close>

lemma find_tab_None_iff: "find_tab ts i = None \<longleftrightarrow> i \<notin> tab_id ` set ts"
  by (auto simp: find_tab_def find_None_iff)

lemma find_tab_Some_D: "find_tab ts i = Some t \<Longrightarrow> t \<in> set ts \<and> tab_id t = i"
  by (auto simp: find_tab_def find_Some_iff)

lemma newTabId_1700000000000: "newTabId 1700000000000 = ''tab-1700000000000''"
  by (simp add: newTabId_def decimal.simps digit_char_def)

lemma newTabId_1700000005000: "newTabId 1700000005000 = ''tab-1700000005000''"
  by (simp add: newTabId_def decimal.simps digit_char_def)

subsection \<open>Which operations keep the invariant\<close>



lemma registry_inv_onTabSelect:
  "tabId \<in> tab_id ` set (tabs a) \<Longrightarrow> registry_inv (onTabSelect tabId a)"
  by (auto simp: registry_inv_def onTabSelect_def find_tab_None_iff)




lemma registry_inv_closeTab_others:
  assumes "registry_inv a" and "\<exists>t \<in> set (tabs a). tab_id t \<noteq> i"
  shows "registry_inv (closeTab now i a)"
proof -
  let ?f = "filter (\<lambda>t. tab_id t \<noteq> i) (tabs a)"
  from assms(2) have ne: "?f \<noteq> []"
    by (auto simp: filter_empty_conv)
  then have l: "last ?f \<in> set ?f" by (rule last_in_set)
  show ?thesis
  proof (cases "i = activeTabId a")
    case True
    with ne l show ?thesis
      by (auto simp: registry_inv_def closeTab_def Let_def find_tab_None_iff)
  next
    case False
    with ne assms(1) show ?thesis
      by (auto simp: registry_inv_def closeTab_def Let_def find_tab_None_iff)
  qed
qed

lemma tab_at_Some_D: "tab_at ts k = Some t \<Longrightarrow> t \<in> set ts"
  by (auto simp: tab_at_def split: if_splits)

lemma registry_inv_cycleNext: "cycleNext a = Some b \<Longrightarrow> registry_inv b"
  by (auto simp: cycleNext_def Let_def registry_inv_def find_tab_None_iff
      split: if_splits option.splits dest: tab_at_Some_D)

lemma registry_inv_cyclePrevious: "cyclePrevious a = Some b \<Longrightarrow> registry_inv b"
  by (auto simp: cyclePrevious_def Let_def registry_inv_def find_tab_None_iff
      split: if_splits option.splits dest: tab_at_Some_D)

lemma findIndex_in_range:
  "find_tab ts i \<noteq> None \<Longrightarrow> 0 \<le> findIndex ts i \<and> findIndex ts i < int (length ts)"
  by (auto simp: findIndex_def find_tab_None_iff find_None_iff find_Some_iff in_set_conv_nth
      split: option.splits)

lemma cycleNext_returns: "registry_inv a \<Longrightarrow> \<exists>b. cycleNext a = Some b"
  using findIndex_in_range[of "tabs a" "activeTabId a"]
  by (auto simp: cycleNext_def Let_def registry_inv_def tab_at_def split: option.splits)

lemma cyclePrevious_returns: "registry_inv a \<Longrightarrow> \<exists>b. cyclePrevious a = Some b"
  using findIndex_in_range[of "tabs a" "activeTabId a"]
  by (auto simp: cyclePrevious_def Let_def registry_inv_def tab_at_def split: option.splits)

text \<open>
  Claim C1: the registry always holds a tab and \<^verbatim>\<open>activeTabId\<close> always names one of
  them; in particular \<^verbatim>\<open>closeTab\<close> never leaves it naming a removed tab.

  The lemmas above show the invariant kept by every operation but one. Closing the only
  tab breaks it: the replacement tab carries a new id, and \<^verbatim>\<open>activeTabId\<close> still holds
  the id of the tab that was removed. The theorem runs \<^verbatim>\<open>closeTab\<close> on the initial
  state of the application.
\<close>

theorem closeTab_only_tab_dangling:
  "registry_inv initialApp \<and>
   closeTab 1700000000000 ''tab-1'' initialApp =
     \<lparr>tabs = [defaultTab ''tab-1700000000000''], activeTabId = ''tab-1''\<rparr> \<and>
   \<not> registry_inv (closeTab 1700000000000 ''tab-1'' initialApp)"
  by (simp add: registry_inv_def closeTab_def initialApp_def defaultTab_def find_tab_def
      newTabId_1700000000000)

subsection \<open>Closing a tab\<close>

lemma closeTab_remaining:
  "filter (\<lambda>t. tab_id t \<noteq> i) (tabs a) \<noteq> [] \<Longrightarrow>
   tabs (closeTab now i a) = filter (\<lambda>t. tab_id t \<noteq> i) (tabs a) \<and>
   activeTabId (closeTab now i a) =
     (if i = activeTabId a then tab_id (last (filter (\<lambda>t. tab_id t \<noteq> i) (tabs a)))
      else activeTabId a)"
  by (simp add: closeTab_def Let_def)

lemma filter_other_ids_remove1:
  "distinct (map tab_id ts) \<Longrightarrow> find_tab ts i = Some t \<Longrightarrow>
   filter (\<lambda>t. tab_id t \<noteq> i) ts = remove1 t ts"
proof (induction ts)
  case Nil
  then show ?case by (simp add: find_tab_def)
next
  case (Cons x xs)
  show ?case
  proof (cases "tab_id x = i")
    case True
    with Cons.prems have "t = x" and "\<forall>y \<in> set xs. tab_id y \<noteq> i"
      by (auto simp: find_tab_def image_iff)
    then show ?thesis using True by (simp add: filter_id_conv)
  next
    case False
    with Cons.prems have f: "find_tab xs i = Some t" and d: "distinct (map tab_id xs)"
      by (auto simp: find_tab_def)
    from f have "tab_id t = i" by (simp add: find_tab_Some_D)
    with False have "x \<noteq> t" by auto
    with Cons.IH[OF d f] False show ?thesis by simp
  qed
qed

lemma closeTab_last_one:
  "filter (\<lambda>t. tab_id t \<noteq> i) (tabs a) = [] \<Longrightarrow>
   tabs (closeTab now i a) = [defaultTab (newTabId now)] \<and>
   activeTabId (closeTab now i a) = activeTabId a"
  by (simp add: closeTab_def Let_def)

text \<open>
  Claim C2: \<^verbatim>\<open>closeTab(id)\<close> removes exactly the tab with that id; when it was active
  and other tabs remain, the last remaining tab becomes active; when no tab would
  remain, one fresh default tab is created and activated.

  The three lemmas above give what the code does: the tabs with another id remain, in
  order (exactly one tab goes when ids are distinct), the last of them becomes active,
  and a registry that would be empty holds one default tab instead. That tab is not
  activated, though: \<^verbatim>\<open>activeTabId\<close> keeps the id of the closed tab. The theorem runs
  \<^verbatim>\<open>closeTab\<close> on a registry whose only tab is bound to a file.
\<close>

theorem closeTab_fresh_tab_not_active:
  "tabs (closeTab 1700000005000 ''tab-1700000000000''
      \<lparr>tabs = [\<lparr>tab_id = ''tab-1700000000000'', title = ''notes.md'',
                 filePath = Some ''notes.md'', content = ''<p>hello</p>'', isModified = False\<rparr>],
       activeTabId = ''tab-1700000000000''\<rparr>) = [defaultTab ''tab-1700000005000''] \<and>
   activeTabId (closeTab 1700000005000 ''tab-1700000000000''
      \<lparr>tabs = [\<lparr>tab_id = ''tab-1700000000000'', title = ''notes.md'',
                 filePath = Some ''notes.md'', content = ''<p>hello</p>'', isModified = False\<rparr>],
       activeTabId = ''tab-1700000000000''\<rparr>) = ''tab-1700000000000''"
  by (simp add: closeTab_def newTabId_1700000005000)

subsection \<open>Tab ids\<close>

text \<open>
  An id is the clock reading of the moment of creation, in milliseconds. Different
  readings give different ids, and a tab created at a reading whose id no tab carries
  keeps the ids of the registry distinct.
\<close>

lemma digit_char_inj: "d < 10 \<Longrightarrow> e < 10 \<Longrightarrow> digit_char d = digit_char e \<Longrightarrow> d = e"
proof -
  assume d: "d < 10" and e: "e < 10" and eq: "digit_char d = digit_char e"
  have dist: "distinct ''0123456789''" by simp
  have len: "length ''0123456789'' = 10" by simp
  from eq have "''0123456789'' ! d = ''0123456789'' ! e" by (simp add: digit_char_def)
  with dist d e len show "d = e"
    by (metis nth_eq_iff_index_eq)
qed

lemma decimal_not_Nil: "decimal n \<noteq> []"
  by (subst decimal.simps) simp

lemma decimal_inj: "decimal m = decimal n \<Longrightarrow> m = n"
proof (induction m arbitrary: n rule: decimal.induct)
  case (1 m)
  show ?case
  proof (cases "m < 10")
    case True
    then have dm: "decimal m = [digit_char m]" by (subst decimal.simps) simp
    show ?thesis
    proof (cases "n < 10")
      case nT: True
      then have "decimal n = [digit_char n]" by (subst decimal.simps) simp
      with dm "1.prems" True nT show ?thesis by (simp add: digit_char_inj)
    next
      case nF: False
      then have "decimal n = decimal (n div 10) @ [digit_char (n mod 10)]"
        by (subst decimal.simps) simp
      with dm "1.prems" decimal_not_Nil[of "n div 10"] show ?thesis by simp
    qed
  next
    case False
    then have dm: "decimal m = decimal (m div 10) @ [digit_char (m mod 10)]"
      by (subst decimal.simps) simp
    show ?thesis
    proof (cases "n < 10")
      case nT: True
      then have "decimal n = [digit_char n]" by (subst decimal.simps) simp
      with dm "1.prems" decimal_not_Nil[of "m div 10"] show ?thesis by simp
    next
      case nF: False
      then have dn: "decimal n = decimal (n div 10) @ [digit_char (n mod 10)]"
        by (subst decimal.simps) simp
      from dm dn "1.prems" have a: "decimal (m div 10) = decimal (n div 10)"
        and b: "digit_char (m mod 10) = digit_char (n mod 10)" by simp_all
      from "1.IH"[OF False a] have q: "m div 10 = n div 10" .
      from b have r: "m mod 10 = n mod 10" by (simp add: digit_char_inj)
      from q r show ?thesis by (metis div_mult_mod_eq)
    qed
  qed
qed

lemma newTabId_inj: "newTabId m = newTabId n \<Longrightarrow> m = n"
  by (simp add: newTabId_def decimal_inj)

lemma createNewTab_fresh_reading:
  "distinct (map tab_id (tabs a)) \<Longrightarrow> newTabId now \<notin> tab_id ` set (tabs a) \<Longrightarrow>
   distinct (map tab_id (tabs (snd (createNewTab now a))))"
  by (simp add: createNewTab_def Let_def defaultTab_def)

text \<open>
  Claim C8: tab ids are never reused; any two tabs ever created carry distinct ids.

  Nothing makes two readings of the clock differ. The theorem runs \<^verbatim>\<open>createNewTab\<close>
  twice at one reading: both calls return the same id, and the registry then holds two
  tabs with it.
\<close>

theorem createNewTab_same_clock_reading:
  "fst (createNewTab 1700000000000 (snd (createNewTab 1700000000000 initialApp))) =
     fst (createNewTab 1700000000000 initialApp) \<and>
   map tab_id (tabs (snd (createNewTab 1700000000000 (snd (createNewTab 1700000000000 initialApp))))) =
     [''tab-1'', ''tab-1700000000000'', ''tab-1700000000000''] \<and>
   \<not> distinct (map tab_id (tabs (snd (createNewTab 1700000000000
                   (snd (createNewTab 1700000000000 initialApp))))))"
  by (simp add: createNewTab_def Let_def initialApp_def defaultTab_def newTabId_1700000000000)

subsection \<open>The frame of the two update operations\<close>

text \<open>
  Claim C10: \<^verbatim>\<open>updateTabContent\<close> and \<^verbatim>\<open>updateTabFile\<close> change only the tab with the
  given id. \<^verbatim>\<open>activeTabId\<close>, the number of tabs and their order of ids stay; a tab with
  another id stays as it is, field for field; the tab with the id keeps its id,
  \<^verbatim>\<open>updateTabContent\<close> also keeps its \<^verbatim>\<open>filePath\<close> and \<^verbatim>\<open>title\<close> (and
  \<^verbatim>\<open>updateTabFile\<close> its \<^verbatim>\<open>content\<close>); and when no tab has the id, the whole state is
  unchanged.
\<close>

theorem updateTab_frame:
  fixes a :: app
  shows
  "activeTabId (updateTabContent i c m a) = activeTabId a \<and>
   activeTabId (updateTabFile i p ti m a) = activeTabId a \<and>
   length (tabs (updateTabContent i c m a)) = length (tabs a) \<and>
   length (tabs (updateTabFile i p ti m a)) = length (tabs a) \<and>
   map tab_id (tabs (updateTabContent i c m a)) = map tab_id (tabs a) \<and>
   map tab_id (tabs (updateTabFile i p ti m a)) = map tab_id (tabs a) \<and>
   (\<forall>n < length (tabs a). tab_id (tabs a ! n) \<noteq> i \<longrightarrow>
      tabs (updateTabContent i c m a) ! n = tabs a ! n \<and>
      tabs (updateTabFile i p ti m a) ! n = tabs a ! n) \<and>
   (\<forall>n < length (tabs a). tab_id (tabs a ! n) = i \<longrightarrow>
      tabs (updateTabContent i c m a) ! n = (tabs a ! n)\<lparr>content := c, isModified := m\<rparr> \<and>
      filePath (tabs (updateTabContent i c m a) ! n) = filePath (tabs a ! n) \<and>
      title (tabs (updateTabContent i c m a) ! n) = title (tabs a ! n) \<and>
      tabs (updateTabFile i p ti m a) ! n =
        (tabs a ! n)\<lparr>filePath := p, title := ti, isModified := m\<rparr> \<and>
      content (tabs (updateTabFile i p ti m a) ! n) = content (tabs a ! n)) \<and>
   (find_tab (tabs a) i = None \<longrightarrow>
      updateTabContent i c m a = a \<and> updateTabFile i p ti m a = a)"
proof -
  have none: "find_tab (tabs a) i = None \<Longrightarrow>
      map (\<lambda>t. if tab_id t = i then f t else t) (tabs a) = tabs a" for f :: "tab \<Rightarrow> tab"
    by (rule map_idI) (auto simp: find_tab_None_iff)
  show ?thesis
    by (simp add: updateTabContent_def updateTabFile_def none)
qed

theorem updateTab_frame_witness:
  "(1::nat) < length (tabs \<lparr>tabs = [defaultTab ''tab-1'', defaultTab ''tab-2''], activeTabId = ''tab-2''\<rparr>) \<and>
   tab_id (tabs \<lparr>tabs = [defaultTab ''tab-1'', defaultTab ''tab-2''], activeTabId = ''tab-2''\<rparr> ! 1) \<noteq> ''tab-1'' \<and>
   tabs (updateTabContent ''tab-1'' ''<p>x</p>'' True \<lparr>tabs = [defaultTab ''tab-1'', defaultTab ''tab-2''], activeTabId = ''tab-2''\<rparr>) ! 1 = tabs \<lparr>tabs = [defaultTab ''tab-1'', defaultTab ''tab-2''], activeTabId = ''tab-2''\<rparr> ! 1 \<and>
   tabs (updateTabFile ''tab-1'' (Some ''a.md'') ''a.md'' True \<lparr>tabs = [defaultTab ''tab-1'', defaultTab ''tab-2''], activeTabId = ''tab-2''\<rparr>) ! 1 = tabs \<lparr>tabs = [defaultTab ''tab-1'', defaultTab ''tab-2''], activeTabId = ''tab-2''\<rparr> ! 1 \<and>
   (0::nat) < length (tabs \<lparr>tabs = [defaultTab ''tab-1'', defaultTab ''tab-2''], activeTabId = ''tab-2''\<rparr>) \<and>
   tab_id (tabs \<lparr>tabs = [defaultTab ''tab-1'', defaultTab ''tab-2''], activeTabId = ''tab-2''\<rparr> ! 0) = ''tab-1'' \<and>
   tabs (updateTabContent ''tab-1'' ''<p>x</p>'' True \<lparr>tabs = [defaultTab ''tab-1'', defaultTab ''tab-2''], activeTabId = ''tab-2''\<rparr>) ! 0 =
     (tabs \<lparr>tabs = [defaultTab ''tab-1'', defaultTab ''tab-2''], activeTabId = ''tab-2''\<rparr> ! 0)\<lparr>content := ''<p>x</p>'', isModified := True\<rparr> \<and>
   title (tabs (updateTabContent ''tab-1'' ''<p>x</p>'' True \<lparr>tabs = [defaultTab ''tab-1'', defaultTab ''tab-2''], activeTabId = ''tab-2''\<rparr>) ! 0) = ''Untitled'' \<and>
   find_tab (tabs \<lparr>tabs = [defaultTab ''tab-1'', defaultTab ''tab-2''], activeTabId = ''tab-2''\<rparr>) ''tab-9'' = None \<and>
   updateTabContent ''tab-9'' ''<p>x</p>'' True \<lparr>tabs = [defaultTab ''tab-1'', defaultTab ''tab-2''], activeTabId = ''tab-2''\<rparr> = \<lparr>tabs = [defaultTab ''tab-1'', defaultTab ''tab-2''], activeTabId = ''tab-2''\<rparr> \<and>
   updateTabFile ''tab-9'' (Some ''a.md'') ''a.md'' True \<lparr>tabs = [defaultTab ''tab-1'', defaultTab ''tab-2''], activeTabId = ''tab-2''\<rparr> = \<lparr>tabs = [defaultTab ''tab-1'', defaultTab ''tab-2''], activeTabId = ''tab-2''\<rparr>"
proof -
  let ?A = "\<lparr>tabs = [defaultTab ''tab-1'', defaultTab ''tab-2''], activeTabId = ''tab-2''\<rparr>"
  have len: "length (tabs ?A) = 2" by simp
  have other: "tab_id (tabs ?A ! 1) \<noteq> ''tab-1''" by (simp add: defaultTab_def)
  have same: "tab_id (tabs ?A ! 0) = ''tab-1''" by (simp add: defaultTab_def)
  have none: "find_tab (tabs ?A) ''tab-9'' = None" by (simp add: find_tab_def defaultTab_def)
  note frame = updateTab_frame [where i = "''tab-1''" and c = "''<p>x</p>''" and m = True
      and a = ?A and p = "Some ''a.md''" and ti = "''a.md''"]
  note frame9 = updateTab_frame [where i = "''tab-9''" and c = "''<p>x</p>''" and m = True
      and a = ?A and p = "Some ''a.md''" and ti = "''a.md''"]
  from frame len other
  have 1: "tabs (updateTabContent ''tab-1'' ''<p>x</p>'' True ?A) ! 1 = tabs ?A ! 1 \<and>
      tabs (updateTabFile ''tab-1'' (Some ''a.md'') ''a.md'' True ?A) ! 1 = tabs ?A ! 1"
    by (metis one_less_numeral_iff semiring_norm(76))
  from frame len same
  have 2: "tabs (updateTabContent ''tab-1'' ''<p>x</p>'' True ?A) ! 0 =
        (tabs ?A ! 0)\<lparr>content := ''<p>x</p>'', isModified := True\<rparr> \<and>
      title (tabs (updateTabContent ''tab-1'' ''<p>x</p>'' True ?A) ! 0) = title (tabs ?A ! 0)"
    by (metis zero_less_numeral)
  from frame9 none
  have 3: "updateTabContent ''tab-9'' ''<p>x</p>'' True ?A = ?A \<and>
      updateTabFile ''tab-9'' (Some ''a.md'') ''a.md'' True ?A = ?A"
    by blast
  from 1 2 3 other same none show ?thesis
    by (simp add: defaultTab_def)
qed

section \<open>Properties of the unsaved-change guard\<close>

lemma activeTab_in_tabs: "activeTab a = Some t \<Longrightarrow> t \<in> set (tabs a)"
  by (auto simp: activeTab_def split: option.splits list.splits dest: find_tab_Some_D)

lemma discardMessage_Untitled:
  "discardMessage ((defaultTab ''tab-1'')\<lparr>content := ''<p>x</p>'', isModified := True\<rparr>) = ''Discard unsaved changes to Untitled?''"
  by (simp add: discardMessage_def fileName_of_def defaultTab_def)

text \<open>
  Claim C3: the guard returns true at once, without a prompt, for a tab that is not
  modified; and closing a modified tab removes it only if the guard returns true: when
  the guard returns false, the registry and the active tab are as before.

  The third part says the same from the user's side: when the dialog is answered with
  anything but yes (a refusal, or a failure of the dialog), the tab is asked about once
  and nothing changes.
\<close>

theorem unsaved_change_guard:
  fixes a :: app
  shows
  "(\<forall>t. guarded_tab tabId a = Some t \<longrightarrow> \<not> isModified t \<longrightarrow>
      checkUnsavedChanges confirm tabId a = (True, [])) \<and>
   (\<forall>t. find_tab (tabs a) i = Some t \<longrightarrow> isModified t \<longrightarrow>
      \<not> fst (checkUnsavedChanges confirm (Some i) a) \<longrightarrow>
      fst (handleCloseTab confirm now i a) = a) \<and>
   (\<forall>t. find_tab (tabs a) i = Some t \<longrightarrow> isModified t \<longrightarrow> i \<noteq> [] \<longrightarrow>
      confirm (discardMessage t) \<noteq> Some True \<longrightarrow>
      handleCloseTab confirm now i a = (a, [discardMessage t]))"
proof (intro conjI allI impI)
  fix t assume "guarded_tab tabId a = Some t" "\<not> isModified t"
  then show "checkUnsavedChanges confirm tabId a = (True, [])"
    by (simp add: checkUnsavedChanges_def)
next
  fix t assume "find_tab (tabs a) i = Some t" "isModified t"
    "\<not> fst (checkUnsavedChanges confirm (Some i) a)"
  then show "fst (handleCloseTab confirm now i a) = a"
    by (cases "checkUnsavedChanges confirm (Some i) a") (simp add: handleCloseTab_def)
next
  fix t assume f: "find_tab (tabs a) i = Some t" and m: "isModified t" and i: "i \<noteq> []"
    and c: "confirm (discardMessage t) \<noteq> Some True"
  from f i have g: "guarded_tab (Some i) a = Some t"
    by (simp add: guarded_tab_def)
  from c have "checkUnsavedChanges confirm (Some i) a = (False, [discardMessage t])"
    using g m by (cases "confirm (discardMessage t)") (auto simp: checkUnsavedChanges_def)
  with f m show "handleCloseTab confirm now i a = (a, [discardMessage t])"
    by (simp add: handleCloseTab_def)
qed

theorem unsaved_change_guard_witness:
  "guarded_tab None initialApp = Some (defaultTab ''tab-1'') \<and>
   \<not> isModified (defaultTab ''tab-1'') \<and>
   checkUnsavedChanges (\<lambda>msg. Some False) None initialApp = (True, []) \<and>
   find_tab (tabs \<lparr>tabs = [(defaultTab ''tab-1'')\<lparr>content := ''<p>x</p>'', isModified := True\<rparr>], activeTabId = ''tab-1''\<rparr>) ''tab-1'' = Some ((defaultTab ''tab-1'')\<lparr>content := ''<p>x</p>'', isModified := True\<rparr>) \<and>
   isModified ((defaultTab ''tab-1'')\<lparr>content := ''<p>x</p>'', isModified := True\<rparr>) \<and>
   \<not> fst (checkUnsavedChanges (\<lambda>msg. Some False) (Some ''tab-1'') \<lparr>tabs = [(defaultTab ''tab-1'')\<lparr>content := ''<p>x</p>'', isModified := True\<rparr>], activeTabId = ''tab-1''\<rparr>) \<and>
   fst (handleCloseTab (\<lambda>msg. Some False) 1700000000000 ''tab-1'' \<lparr>tabs = [(defaultTab ''tab-1'')\<lparr>content := ''<p>x</p>'', isModified := True\<rparr>], activeTabId = ''tab-1''\<rparr>) = \<lparr>tabs = [(defaultTab ''tab-1'')\<lparr>content := ''<p>x</p>'', isModified := True\<rparr>], activeTabId = ''tab-1''\<rparr> \<and>
   ''tab-1'' \<noteq> [] \<and>
   (\<lambda>msg. Some False) (discardMessage ((defaultTab ''tab-1'')\<lparr>content := ''<p>x</p>'', isModified := True\<rparr>)) \<noteq> Some True \<and>
   handleCloseTab (\<lambda>msg. Some False) 1700000000000 ''tab-1'' \<lparr>tabs = [(defaultTab ''tab-1'')\<lparr>content := ''<p>x</p>'', isModified := True\<rparr>], activeTabId = ''tab-1''\<rparr> =
     (\<lparr>tabs = [(defaultTab ''tab-1'')\<lparr>content := ''<p>x</p>'', isModified := True\<rparr>], activeTabId = ''tab-1''\<rparr>, [''Discard unsaved changes to Untitled?''])"
proof -
  let ?no = "\<lambda>msg :: string. Some False"
  let ?M = "\<lparr>tabs = [(defaultTab ''tab-1'')\<lparr>content := ''<p>x</p>'', isModified := True\<rparr>], activeTabId = ''tab-1''\<rparr>"
  let ?t = "(defaultTab ''tab-1'')\<lparr>content := ''<p>x</p>'', isModified := True\<rparr>"
  have g: "guarded_tab None initialApp = Some (defaultTab ''tab-1'')"
    by (simp add: guarded_tab_def activeTab_def find_tab_def initialApp_def defaultTab_def)
  have u: "\<not> isModified (defaultTab ''tab-1'')"
    by (simp add: defaultTab_def)
  have f: "find_tab (tabs ?M) ''tab-1'' = Some ?t"
    by (simp add: find_tab_def defaultTab_def)
  have m: "isModified ?t" by simp
  have r: "\<not> fst (checkUnsavedChanges ?no (Some ''tab-1'') ?M)"
    by (simp add: checkUnsavedChanges_def guarded_tab_def find_tab_def defaultTab_def)
  have c: "?no (discardMessage ?t) \<noteq> Some True" by simp
  note guard0 = unsaved_change_guard [where a = initialApp and tabId = None and confirm = ?no]
  note guard1 = unsaved_change_guard [where a = ?M and i = "''tab-1''" and confirm = ?no
      and now = 1700000000000]
  from guard0 g u have 1: "checkUnsavedChanges ?no None initialApp = (True, [])"
    by blast
  from guard1 f m r have 2: "fst (handleCloseTab ?no 1700000000000 ''tab-1'' ?M) = ?M"
    by blast
  from guard1 f m c have 3: "handleCloseTab ?no 1700000000000 ''tab-1'' ?M = (?M, [discardMessage ?t])"
    by blast
  from g u 1 f m r 2 c 3 show ?thesis
    by (simp add: discardMessage_Untitled)
qed

text \<open>
  When the active tab is the modified one, the guard of \<^verbatim>\<open>handleWindowClose\<close> asks
  about it, and any answer but yes keeps the window open.
\<close>

lemma window_close_active_modified:
  assumes f: "activeTab a = Some t" and m: "isModified t"
    and c: "confirm (discardMessage t) \<noteq> Some True"
  shows "handleWindowClose confirm a = (WindowOpen, [discardMessage t])"
proof -
  from f m have "list_ex isModified (tabs a)"
    using activeTab_in_tabs by (auto simp: list_ex_iff)
  moreover from c have "checkUnsavedChanges confirm None a = (False, [discardMessage t])"
    using f m
    by (cases "confirm (discardMessage t)") (auto simp: checkUnsavedChanges_def guarded_tab_def)
  ultimately show ?thesis
    by (simp add: handleWindowClose_def)
qed

text \<open>
  Claim C5: while any tab is modified, the window is not closed unless the guard was
  invoked and returned true; a guard that declines cancels the close.

  \<^verbatim>\<open>handleWindowClose\<close> tests whether any tab is modified (line 498, "Check if any tab
  has unsaved changes"), but the guard it then calls, \<^verbatim>\<open>checkUnsavedChanges()\<close> without
  an argument, looks at the active tab alone. The theorem takes a registry whose active
  tab is not modified and whose other tab is: some tab is modified, the guard returns
  true without a prompt, and the window closes with no question asked, whatever the
  dialog would have answered.
\<close>

theorem window_close_inactive_modified:
  "list_ex isModified
     (tabs \<lparr>tabs = [defaultTab ''tab-1'',
                    (defaultTab ''tab-2'')\<lparr>content := ''<p>x</p>'', isModified := True\<rparr>],
            activeTabId = ''tab-1''\<rparr>) \<and>
   checkUnsavedChanges confirm None
     \<lparr>tabs = [defaultTab ''tab-1'',
              (defaultTab ''tab-2'')\<lparr>content := ''<p>x</p>'', isModified := True\<rparr>],
      activeTabId = ''tab-1''\<rparr> = (True, []) \<and>
   handleWindowClose confirm
     \<lparr>tabs = [defaultTab ''tab-1'',
              (defaultTab ''tab-2'')\<lparr>content := ''<p>x</p>'', isModified := True\<rparr>],
      activeTabId = ''tab-1''\<rparr> = (WindowClosed, [])"
  by (simp add: handleWindowClose_def checkUnsavedChanges_def guarded_tab_def activeTab_def
      find_tab_def defaultTab_def)

section \<open>The content-changed notification\<close>

lemma find_tab_map:
  "(\<And>t. tab_id (f t) = tab_id t) \<Longrightarrow> find_tab (map f ts) i = map_option f (find_tab ts i)"
  by (induction ts) (simp_all add: find_tab_def)

lemma onUpdate_active:
  assumes "registry_inv a"
  shows "\<exists>t. activeTab a = Some t \<and> tab_id t = activeTabId a \<and>
     onUpdate newContent a =
       Some (updateTabContent (activeTabId a) newContent
               (newContent \<noteq> EMPTY_DOC \<and> newContent \<noteq> content t) a) \<and>
     activeTab (updateTabContent (activeTabId a) newContent
               (newContent \<noteq> EMPTY_DOC \<and> newContent \<noteq> content t) a) =
       Some (t\<lparr>content := newContent,
               isModified := (newContent \<noteq> EMPTY_DOC \<and> newContent \<noteq> content t)\<rparr>)"
proof -
  from assms obtain t where f: "find_tab (tabs a) (activeTabId a) = Some t"
    by (auto simp: registry_inv_def)
  then have i: "tab_id t = activeTabId a" by (simp add: find_tab_Some_D)
  from f have act: "activeTab a = Some t" by (simp add: activeTab_def)
  let ?m = "newContent \<noteq> EMPTY_DOC \<and> newContent \<noteq> content t"
  let ?f = "\<lambda>t. if tab_id t = activeTabId a then t\<lparr>content := newContent, isModified := ?m\<rparr> else t"
  have "find_tab (map ?f (tabs a)) (activeTabId a) = map_option ?f (find_tab (tabs a) (activeTabId a))"
    by (rule find_tab_map) simp
  with f i have "activeTab (updateTabContent (activeTabId a) newContent ?m a) =
      Some (t\<lparr>content := newContent, isModified := ?m\<rparr>)"
    by (simp add: activeTab_def updateTabContent_def)
  with act i show ?thesis
    by (simp add: onUpdate_def)
qed











text \<open>
  Where the content of the tab is no longer the bound content, the code still compares
  with the content of the tab (\<^verbatim>\<open>activeTab.content\<close>, line 181), which the notification
  before has overwritten. So a second notification with the same content clears the
  flag of a tab with unsaved changes (the field that line 27 calls "Track unsaved
  changes"), and the tab is then closed without a question.
\<close>

lemma onUpdate_repeated_notification:
  "Option.bind (onUpdate ''<p>x</p>'' initialApp) (onUpdate ''<p>x</p>'') =
     Some \<lparr>tabs = [(defaultTab ''tab-1'')\<lparr>content := ''<p>x</p>'', isModified := False\<rparr>],
           activeTabId = ''tab-1''\<rparr> \<and>
   snd (handleCloseTab (\<lambda>msg. Some False) 1700000000000 ''tab-1''
          \<lparr>tabs = [(defaultTab ''tab-1'')\<lparr>content := ''<p>x</p>'', isModified := False\<rparr>],
           activeTabId = ''tab-1''\<rparr>) = []"
  by (simp add: onUpdate_def activeTab_def find_tab_def updateTabContent_def EMPTY_DOC_def
      initialApp_def defaultTab_def handleCloseTab_def)

section \<open>Properties of find and replace\<close>

subsection \<open>Escaped queries are literal patterns\<close>

lemma backslash_special: "0x5C \<in> set regex_specials"
  by (simp add: regex_specials_def)

lemma dot_special: "0x2E \<in> set regex_specials"
  by (simp add: regex_specials_def js_def)

lemma RegExp_parse_escapeRegex: "RegExp_parse (escapeRegex q) = Some (map Lit q)"
proof (induction q)
  case Nil
  then show ?case by (simp add: escapeRegex_def)
next
  case (Cons c q)
  have e: "escapeRegex (c # q) =
      (if c \<in> set regex_specials then [0x5C, c] else [c]) @ escapeRegex q"
    by (simp add: escapeRegex_def)
  show ?case
  proof (cases "c \<in> set regex_specials")
    case True
    with Cons.IH e show ?thesis by simp
  next
    case False
    then have "c \<noteq> 0x5C" and "c \<noteq> 0x2E"
      using backslash_special dot_special by auto
    with False Cons.IH e show ?thesis by simp
  qed
qed

lemma matchesAt_Lit: "matchesAt up ic (map Lit q) s = spec_occurs_at up ic q s"
proof (induction q arbitrary: s)
  case Nil
  then show ?case by (simp add: spec_occurs_at_def)
next
  case (Cons c q)
  show ?case
  proof (cases s)
    case Nil
    then show ?thesis by (simp add: spec_occurs_at_def)
  next
    case (Cons x xs)
    with Cons.IH[of xs] show ?thesis
      by (auto simp: spec_occurs_at_def)
  qed
qed

lemma length_matchAll_Lit:
  "q \<noteq> [] \<Longrightarrow> length (matchAll up ic (map Lit q) s) = spec_count_occurrences up ic q s"
proof (induction up ic q s rule: spec_count_occurrences.induct)
  case (1 up ic q s)
  show ?case
  proof (cases "s = []")
    case True
    with "1.prems" show ?thesis
      by (cases q) (simp_all add: matchAll.simps[of up ic _ "[]"]
          spec_count_occurrences.simps[of up ic _ "[]"])
  next
    case False
    show ?thesis
    proof (cases "spec_occurs_at up ic q s")
      case True
      with False "1.prems" "1.IH"(1) show ?thesis
        by (simp add: matchAll.simps[of up ic "map Lit q" s]
            spec_count_occurrences.simps[of up ic q s] matchesAt_Lit)
    next
      case no: False
      with False "1.prems" "1.IH"(2) show ?thesis
        by (simp add: matchAll.simps[of up ic "map Lit q" s]
            spec_count_occurrences.simps[of up ic q s] matchesAt_Lit)
    qed
  qed
qed

lemma getSubstitution_no_template:
  "\<not> has_template r \<Longrightarrow> getSubstitution m b a r = r"
  by (induction m b a r rule: getSubstitution.induct) (auto split: if_splits)

lemma replaceFrom_Lit:
  "q \<noteq> [] \<Longrightarrow> \<not> has_template r \<Longrightarrow>
   replaceFrom up g ic (map Lit q) r pre s = spec_replace_occurrences up g ic q r s"
proof (induction up g ic q r s arbitrary: pre rule: spec_replace_occurrences.induct)
  case (1 up g ic q r s)
  show ?case
  proof (cases "s = []")
    case True
    with "1.prems" show ?thesis
      by (cases q) (simp_all add: replaceFrom.simps[of up g ic _ r pre "[]"]
          spec_replace_occurrences.simps[of up g ic _ r "[]"])
  next
    case False
    show ?thesis
    proof (cases "spec_occurs_at up ic q s")
      case True
      show ?thesis
      proof (cases g)
        case gT: True
        with True False "1.prems" "1.IH"(1)[of "pre @ take (length q) s"] show ?thesis
          by (simp add: replaceFrom.simps[of up True ic "map Lit q" r pre s]
              spec_replace_occurrences.simps[of up True ic q r s] matchesAt_Lit
              getSubstitution_no_template)
      next
        case gF: False
        with True False "1.prems" show ?thesis
          by (simp add: replaceFrom.simps[of up False ic "map Lit q" r pre s]
              spec_replace_occurrences.simps[of up False ic q r s] matchesAt_Lit
              getSubstitution_no_template)
      qed
    next
      case no: False
      with False "1.prems" "1.IH"(2)[of "pre @ [hd s]"] show ?thesis
        by (simp add: replaceFrom.simps[of up g ic "map Lit q" r pre s]
            spec_replace_occurrences.simps[of up g ic q r s] matchesAt_Lit)
    qed
  qed
qed

lemma findNext_escaped:
  "findText d \<noteq> [] \<Longrightarrow>
   findNext up d =
     Some (case matchAll up (\<not> caseSensitive d) (map Lit (findText d)) (html d) of
             [] \<Rightarrow> d\<lparr>totalMatches := 0, currentMatch := 0\<rparr>
           | m # ms \<Rightarrow> d\<lparr>totalMatches := length (m # ms)\<rparr>)"
  by (simp add: findNext_def RegExp_parse_escapeRegex String_match_def split: list.splits)

subsection \<open>Examples\<close>

lemma count_cat_Cat_dog:
  "spec_count_occurrences latin1_toUppercase True (js ''cat'') (js ''cat Cat dog'') = 2"
  by code_simp

text \<open>
  The query \<^verbatim>\<open>a.b\<close> occurs once in \<^verbatim>\<open>a.b axb\<close>; as a pattern that was not escaped
  it would match twice.
\<close>

lemma count_escaped_dot:
  "spec_count_occurrences latin1_toUppercase True (js ''a.b'') (js ''a.b axb'') = 1"
  by code_simp

lemma unescaped_dot_matches_twice:
  "map_option (\<lambda>p. length (matchAll latin1_toUppercase True p (js ''a.b axb'')))
     (RegExp_parse (js ''a.b'')) = Some 2"
  by code_simp

text \<open>
  Case is ignored beyond ASCII: the query \<open>0xE9\<close> (e with acute accent) is counted twice
  in the three code units \<open>0xC9\<close> (E with acute accent), \<^verbatim>\<open>t\<close>, \<open>0xE9\<close>, and once when
  \<^verbatim>\<open>caseSensitive\<close> is set.
\<close>

lemma count_e_acute:
  "map_option totalMatches
     (changeFindText latin1_toUppercase [0xE9] (initialDialog [0xC9, 0x74, 0xE9])) = Some 2 \<and>
   map_option totalMatches
     (changeFindText latin1_toUppercase [0xE9]
        ((initialDialog [0xC9, 0x74, 0xE9])\<lparr>caseSensitive := True\<rparr>)) = Some 1"
  by code_simp

lemma replace_cat_cat_dog:
  "spec_replace_occurrences latin1_toUppercase True True (js ''cat'') (js ''dog'')
     (js ''cat cat dog'') = js ''dog dog dog''"
  by code_simp

lemma replace_cat_dollar_5:
  "spec_replace_occurrences latin1_toUppercase True True (js ''cat'') (js ''$5'')
     (js ''cat cat dog'') = js ''$5 $5 dog''"
  by code_simp

subsection \<open>Counting\<close>

text \<open>
  What \<^verbatim>\<open>findNext\<close> does for a query that is not empty, whatever the table of upper
  cases: it returns, and sets \<^verbatim>\<open>totalMatches\<close> to the number of occurrences of the
  query, taken as a literal string, in the serialized content (up to case unless
  \<^verbatim>\<open>caseSensitive\<close> is set); when there is none it sets \<^verbatim>\<open>totalMatches\<close> and
  \<^verbatim>\<open>currentMatch\<close> to 0. A dialog that was just opened ignores case.
\<close>

lemma findNext_counts:
  "findText d \<noteq> [] \<Longrightarrow>
   findNext up d =
     Some (if spec_count_occurrences up (\<not> caseSensitive d) (findText d) (html d) = 0
           then d\<lparr>totalMatches := 0, currentMatch := 0\<rparr>
           else d\<lparr>totalMatches :=
                    spec_count_occurrences up (\<not> caseSensitive d) (findText d) (html d)\<rparr>)"
proof -
  assume ne: "findText d \<noteq> []"
  let ?ms = "matchAll up (\<not> caseSensitive d) (map Lit (findText d)) (html d)"
  have n: "length ?ms = spec_count_occurrences up (\<not> caseSensitive d) (findText d) (html d)"
    using ne by (rule length_matchAll_Lit)
  show ?thesis
  proof (cases ?ms)
    case Nil
    with n have "spec_count_occurrences up (\<not> caseSensitive d) (findText d) (html d) = 0"
      by simp
    with Nil ne show ?thesis by (simp add: findNext_escaped)
  next
    case (Cons m ms)
    with n have "spec_count_occurrences up (\<not> caseSensitive d) (findText d) (html d) =
        length (m # ms)"
      by simp
    with Cons ne show ?thesis by (simp add: findNext_escaped)
  qed
qed

lemma changeFindText_counts:
  "q \<noteq> [] \<Longrightarrow>
   map_option totalMatches (changeFindText up q (initialDialog doc)) =
     Some (spec_count_occurrences up True q doc)"
proof -
  assume ne: "q \<noteq> []"
  let ?d = "(initialDialog doc)\<lparr>findText := q\<rparr>"
  have f: "findText ?d \<noteq> []" using ne by simp
  from findNext_counts[OF f, of up] show ?thesis
    by (simp add: changeFindText_def initialDialog_def)
qed

text \<open>
  Claim C6: \<^verbatim>\<open>findNext\<close> reports the number of occurrences of the query, taken
  literally and case-insensitively by default, and returns 0 and resets the position
  when the query is empty or does not occur.

  The two lemmas above are the claim for a query that is not empty. For the empty query
  the code leaves it: line 34 returns before any counter is set, where the branch for a
  query that does not occur (lines 45-48) sets both counters to 0. The theorem types
  \<^verbatim>\<open>cat\<close> into the find field over the content \<^verbatim>\<open>cat cat dog\<close>, which counts 2, and
  then empties the field: the effect of lines 101-104 runs \<^verbatim>\<open>findNext\<close> again, and
  \<^verbatim>\<open>totalMatches\<close> is still 2, which line 144 goes on displaying.
\<close>

theorem findNext_empty_query_keeps_count:
  "Option.bind (changeFindText latin1_toUppercase (js ''cat'') (initialDialog (js ''cat cat dog'')))
     (changeFindText latin1_toUppercase []) =
   Some \<lparr>html = js ''cat cat dog'', findText = [], replaceText = [],
         caseSensitive = False, currentMatch = 0, totalMatches = 2\<rparr>"
  by code_simp

subsection \<open>Replacing\<close>

text \<open>
  Claim C7, as the code has it: for a query that is not empty and a replacement that
  holds none of the sequences \<^verbatim>\<open>$$\<close>, \<^verbatim>\<open>$&\<close>, \<^verbatim>\<open>$`\<close> and \<^verbatim>\<open>$'\<close>, \<^verbatim>\<open>replaceAll\<close>
  always returns; in one pass from left to right it puts the replacement in the place of
  every occurrence of the query (up to case unless \<^verbatim>\<open>caseSensitive\<close> is set, whatever
  the table of upper cases); when that changes the content, the result is handed to the
  editing surface as its new content and \<^verbatim>\<open>totalMatches\<close> and \<^verbatim>\<open>currentMatch\<close> are
  set to 0; when it does not, nothing changes. No count is returned.
\<close>

theorem replaceAll_replaces_every_occurrence:
  "findText d \<noteq> [] \<longrightarrow> \<not> has_template (replaceText d) \<longrightarrow>
   replaceAll up reimport d =
     Some (if spec_replace_occurrences up True (\<not> caseSensitive d) (findText d) (replaceText d)
                (html d) \<noteq> html d
           then d\<lparr>html := reimport (spec_replace_occurrences up True (\<not> caseSensitive d)
                                       (findText d) (replaceText d) (html d)),
                   totalMatches := 0, currentMatch := 0\<rparr>
           else d)"
proof (intro impI)
  assume ne: "findText d \<noteq> []" and nt: "\<not> has_template (replaceText d)"
  have "String_replace up True (\<not> caseSensitive d) (map Lit (findText d)) (replaceText d) (html d) =
      spec_replace_occurrences up True (\<not> caseSensitive d) (findText d) (replaceText d) (html d)"
    unfolding String_replace_def using ne nt by (rule replaceFrom_Lit)
  with ne show "replaceAll up reimport d =
     Some (if spec_replace_occurrences up True (\<not> caseSensitive d) (findText d) (replaceText d)
                (html d) \<noteq> html d
           then d\<lparr>html := reimport (spec_replace_occurrences up True (\<not> caseSensitive d)
                                       (findText d) (replaceText d) (html d)),
                   totalMatches := 0, currentMatch := 0\<rparr>
           else d)"
    by (simp add: replaceAll_def RegExp_parse_escapeRegex setContent_def Let_def)
qed

theorem replaceAll_replaces_every_occurrence_witness:
  "findText ((initialDialog (js ''cat cat dog''))\<lparr>findText := js ''cat'', replaceText := js ''dog''\<rparr>) \<noteq> [] \<and>
   \<not> has_template (replaceText
     ((initialDialog (js ''cat cat dog''))\<lparr>findText := js ''cat'', replaceText := js ''dog''\<rparr>)) \<and>
   replaceAll latin1_toUppercase id
     ((initialDialog (js ''cat cat dog''))\<lparr>findText := js ''cat'', replaceText := js ''dog''\<rparr>) =
     Some \<lparr>html = js ''dog dog dog'', findText = js ''cat'', replaceText = js ''dog'',
           caseSensitive = False, currentMatch = 0, totalMatches = 0\<rparr> \<and>
   findText ((initialDialog (js ''cat cat dog''))\<lparr>findText := js ''cat'', replaceText := js ''$5''\<rparr>) \<noteq> [] \<and>
   \<not> has_template (replaceText
     ((initialDialog (js ''cat cat dog''))\<lparr>findText := js ''cat'', replaceText := js ''$5''\<rparr>)) \<and>
   replaceAll latin1_toUppercase id
     ((initialDialog (js ''cat cat dog''))\<lparr>findText := js ''cat'', replaceText := js ''$5''\<rparr>) =
     Some \<lparr>html = js ''$5 $5 dog'', findText = js ''cat'', replaceText = js ''$5'',
           caseSensitive = False, currentMatch = 0, totalMatches = 0\<rparr>"
proof -
  let ?d = "(initialDialog (js ''cat cat dog''))\<lparr>findText := js ''cat'', replaceText := js ''dog''\<rparr>"
  let ?e = "(initialDialog (js ''cat cat dog''))\<lparr>findText := js ''cat'', replaceText := js ''$5''\<rparr>"
  have ne: "findText ?d \<noteq> []" by (simp add: js_def)
  have nt: "\<not> has_template (replaceText ?d)" by (simp add: js_def)
  have ne': "findText ?e \<noteq> []" by (simp add: js_def)
  have nt': "\<not> has_template (replaceText ?e)" by (simp add: js_def)
  have r: "spec_replace_occurrences latin1_toUppercase True (\<not> caseSensitive ?d) (findText ?d)
      (replaceText ?d) (html ?d) = js ''dog dog dog''"
    using replace_cat_cat_dog by (simp add: initialDialog_def)
  have r': "spec_replace_occurrences latin1_toUppercase True (\<not> caseSensitive ?e) (findText ?e)
      (replaceText ?e) (html ?e) = js ''$5 $5 dog''"
    using replace_cat_dollar_5 by (simp add: initialDialog_def)
  have neq: "js ''dog dog dog'' \<noteq> js ''cat cat dog''" by (simp add: js_def)
  have neq': "js ''$5 $5 dog'' \<noteq> js ''cat cat dog''" by (simp add: js_def)
  from replaceAll_replaces_every_occurrence
    [where d = ?d and reimport = id and up = latin1_toUppercase] ne nt
  have "replaceAll latin1_toUppercase id ?d =
     Some (if spec_replace_occurrences latin1_toUppercase True (\<not> caseSensitive ?d) (findText ?d)
                (replaceText ?d) (html ?d) \<noteq> html ?d
           then ?d\<lparr>html := id (spec_replace_occurrences latin1_toUppercase True
                                  (\<not> caseSensitive ?d) (findText ?d) (replaceText ?d) (html ?d)),
                    totalMatches := 0, currentMatch := 0\<rparr>
           else ?d)"
    by blast
  with r neq have 1: "replaceAll latin1_toUppercase id ?d =
     Some \<lparr>html = js ''dog dog dog'', findText = js ''cat'', replaceText = js ''dog'',
           caseSensitive = False, currentMatch = 0, totalMatches = 0\<rparr>"
    by (simp add: initialDialog_def)
  from replaceAll_replaces_every_occurrence
    [where d = ?e and reimport = id and up = latin1_toUppercase] ne' nt'
  have "replaceAll latin1_toUppercase id ?e =
     Some (if spec_replace_occurrences latin1_toUppercase True (\<not> caseSensitive ?e) (findText ?e)
                (replaceText ?e) (html ?e) \<noteq> html ?e
           then ?e\<lparr>html := id (spec_replace_occurrences latin1_toUppercase True
                                  (\<not> caseSensitive ?e) (findText ?e) (replaceText ?e) (html ?e)),
                    totalMatches := 0, currentMatch := 0\<rparr>
           else ?e)"
    by blast
  with r' neq' have 2: "replaceAll latin1_toUppercase id ?e =
     Some \<lparr>html = js ''$5 $5 dog'', findText = js ''cat'', replaceText = js ''$5'',
           caseSensitive = False, currentMatch = 0, totalMatches = 0\<rparr>"
    by (simp add: initialDialog_def)
  from ne nt 1 ne' nt' 2 show ?thesis by blast
qed

text \<open>
  Claim C7 as the specification words it has \<^verbatim>\<open>replaceAll\<close> return the number of
  occurrences replaced, 2 for \<^verbatim>\<open>cat\<close> in \<^verbatim>\<open>cat cat dog\<close>. The function returns
  nothing, and the one count the dialog keeps is 0 afterwards. The claim also speaks of
  every replacement: the replacement \<^verbatim>\<open>$$\<close> puts one dollar sign in the place of each
  occurrence, not two.
\<close>

theorem replaceAll_reports_no_count:
  "replaceAll latin1_toUppercase id
     ((initialDialog (js ''cat cat dog''))\<lparr>findText := js ''cat'', replaceText := js ''dog''\<rparr>) =
     Some \<lparr>html = js ''dog dog dog'', findText = js ''cat'', replaceText = js ''dog'',
           caseSensitive = False, currentMatch = 0, totalMatches = 0\<rparr> \<and>
   spec_count_occurrences latin1_toUppercase True (js ''cat'') (js ''cat cat dog'') = 2 \<and>
   map_option html
     (replaceAll latin1_toUppercase id
        ((initialDialog (js ''cat cat dog''))\<lparr>findText := js ''cat'', replaceText := js ''$$''\<rparr>)) =
     Some (js ''$ $ dog'') \<and>
   spec_replace_occurrences latin1_toUppercase True True (js ''cat'') (js ''$$'')
     (js ''cat cat dog'') = js ''$$ $$ dog''"
  by code_simp

text \<open>
  Claim C9: \<^verbatim>\<open>replaceNext\<close> and \<^verbatim>\<open>replaceAll\<close> hand the replacement to
  \<^verbatim>\<open>String.prototype.replace\<close> as it is, so a dollar-sign sequence in it is a
  substitution pattern: for the replacements \<^verbatim>\<open>$&\<close> and \<^verbatim>\<open>$`\<close> the new content is not
  the content with the occurrences of the query replaced by the text of the replacement.
  Each line of the theorem gives what the code produces, followed by the literal
  replacement.
\<close>

theorem replacement_is_a_template:
  "map_option html (replaceNext latin1_toUppercase id
     ((initialDialog (js ''one cat, two cats''))\<lparr>findText := js ''cat'', replaceText := js ''<$&>''\<rparr>)) =
     Some (js ''one <cat>, two cats'') \<and>
   spec_replace_occurrences latin1_toUppercase False True (js ''cat'') (js ''<$&>'')
     (js ''one cat, two cats'') = js ''one <$&>, two cats'' \<and>
   map_option html (replaceNext latin1_toUppercase id
     ((initialDialog (js ''one cat, two cats''))\<lparr>findText := js ''cat'', replaceText := js ''$`''\<rparr>)) =
     Some (js ''one one , two cats'') \<and>
   spec_replace_occurrences latin1_toUppercase False True (js ''cat'') (js ''$`'')
     (js ''one cat, two cats'') = js ''one $`, two cats'' \<and>
   map_option html (replaceAll latin1_toUppercase id
     ((initialDialog (js ''one cat, two cats''))\<lparr>findText := js ''cat'', replaceText := js ''$&''\<rparr>)) =
     Some (js ''one cat, two cats'') \<and>
   spec_replace_occurrences latin1_toUppercase True True (js ''cat'') (js ''$&'')
     (js ''one cat, two cats'') = js ''one $&, two $&s'' \<and>
   map_option html (replaceAll latin1_toUppercase id
     ((initialDialog (js ''one cat, two cats''))\<lparr>findText := js ''cat'', replaceText := js ''$`''\<rparr>)) =
     Some (js ''one one , two one cat, two s'') \<and>
   spec_replace_occurrences latin1_toUppercase True True (js ''cat'') (js ''$`'')
     (js ''one cat, two cats'') = js ''one $`, two $`s''"
  by code_simp

end
